theory Spec2Isabelle
  imports Main "HOL-Library.List_Lexorder" "HOL-Library.Char_ord" "HOL-Library.Multiset"
begin

section \<open>Values, variables and reactive references\<close>

text \<open>
  The values a caller can pass as GraphQL variables. A JavaScript object keeps its
  entries in insertion order, so an object is an association list; its keys are
  pairwise different (\<open>wellformed\<close> below).
\<close>

datatype jsvalue =
    JUndefined
  | JNull
  | JBool bool
  | JNum int
  | JStr string
  | JArr "jsvalue list"
  | JObj "(string \<times> jsvalue) list"

fun wellformed :: "jsvalue \<Rightarrow> bool" where
  "wellformed (JArr xs) = list_all wellformed xs"
| "wellformed (JObj kvs) = (distinct (map fst kvs) \<and> list_all (\<lambda>(k, v). wellformed v) kvs)"
| "wellformed v = True"

text \<open>JavaScript truthiness, as used by \<^verbatim>\<open>variables && isRef(variables)\<close>.\<close>

fun truthy_value :: "jsvalue \<Rightarrow> bool" where
  "truthy_value JUndefined = False"
| "truthy_value JNull = False"
| "truthy_value (JBool b) = b"
| "truthy_value (JNum n) = (n \<noteq> 0)"
| "truthy_value (JStr s) = (s \<noteq> [])"
| "truthy_value (JArr xs) = True"
| "truthy_value (JObj kvs) = True"

text \<open>
  The first rest argument of \<^verbatim>\<open>useAsyncGraphqlQuery\<close> is
  \<^verbatim>\<open>undefined | null | {} | VarType | Ref<VarType>\<close>: a plain value
  (\<open>Plain JUndefined\<close> when it is left out) or a Vue \<^verbatim>\<open>Ref\<close>. A Ref is a
  mutable cell shared with the caller; it is an address, and \<open>refs\<close> gives the
  value each cell holds at the moment.
\<close>

type_synonym ref_id = nat

type_synonym refs = "ref_id \<Rightarrow> jsvalue"

datatype variables_arg = Plain jsvalue | Reactive ref_id

fun isRef :: "variables_arg \<Rightarrow> bool" where
  "isRef (Plain v) = False"
| "isRef (Reactive r) = True"

fun unref :: "refs \<Rightarrow> variables_arg \<Rightarrow> jsvalue" where
  "unref rs (Plain v) = v"
| "unref rs (Reactive r) = rs r"

fun truthy :: "variables_arg \<Rightarrow> bool" where
  "truthy (Plain v) = truthy_value v"
| "truthy (Reactive r) = True"

section \<open>The composable useAsyncGraphqlQuery\<close>

datatype operation_kind = Query | Mutation

datatype http_method = GET | POST

text \<open>\<^verbatim>\<open>graphqlCaching?: { client?: boolean }\<close>\<close>

record graphqlCaching_options =
  client :: "bool option"

text \<open>
  A \<^verbatim>\<open>getCachedData\<close> function is either the caller's own or the closure
  that lines 87-89 create, \<^verbatim>\<open>function (key) { return app.payload.data[key] }\<close>.
  The two are kept apart by a tag, as JavaScript keeps them apart by identity.
\<close>

datatype 'd cache_lookup = CallerLookup "string \<Rightarrow> 'd option" | PayloadLookup

fun run_lookup :: "(string \<rightharpoonup> 'd) \<Rightarrow> 'd cache_lookup \<Rightarrow> string \<Rightarrow> 'd option" where
  "run_lookup payload (CallerLookup f) k = f k"
| "run_lookup payload PayloadLookup k = payload k"

text \<open>
  The options object (\<^verbatim>\<open>AsyncGraphqlQueryOptions\<close>, lines 17-27), with the
  fields the composable reads or writes. \<open>watch\<close> lists the watched sources;
  a source is a Ref, as the one the composable pushes.
\<close>

type_synonym watch_source = variables_arg

record ('d, 'o) asyncGraphqlQueryOptions =
  watch :: "watch_source list option"
  getCachedData :: "'d cache_lookup option"
  graphqlCaching :: "graphqlCaching_options option"
  fetchOptions :: "(string \<rightharpoonup> 'o) option"

definition empty_options :: "('d, 'o) asyncGraphqlQueryOptions" where
  "empty_options = \<lparr>watch = None, getCachedData = None, graphqlCaching = None, fetchOptions = None\<rparr>"

text \<open>Line 65: \<^verbatim>\<open>args[1] || {}\<close>.\<close>

definition given_options ::
  "('d, 'o) asyncGraphqlQueryOptions option \<Rightarrow> ('d, 'o) asyncGraphqlQueryOptions" where
  "given_options arg_opts = (case arg_opts of None \<Rightarrow> empty_options | Some opts \<Rightarrow> opts)"

text \<open>The five arguments of one \<^verbatim>\<open>performRequest\<close> call (lines 97-106).\<close>

record 'o performRequest_call =
  req_operation :: operation_kind
  req_operationName :: string
  req_method :: http_method
  req_options :: "string \<rightharpoonup> 'o"
  req_cacheOptions :: "graphqlCaching_options option"

text \<open>
  The three arguments of the final \<^verbatim>\<open>useAsyncData(key, handler, asyncDataOptions)\<close>
  call (lines 94-108). The handler is a closure over \<^verbatim>\<open>variables\<close>: it reads the
  Ref when it runs, so it takes the cells' values of that moment.
\<close>

record ('d, 'o) useAsyncData_call =
  call_key :: string
  call_handler :: "refs \<Rightarrow> 'o performRequest_call"
  call_options :: "('d, 'o) asyncGraphqlQueryOptions"

text \<open>Line 67: \<^verbatim>\<open>`graphql:${name}:${hash(unref(variables))}`\<close>.\<close>

definition operationKey :: "(jsvalue \<Rightarrow> string) \<Rightarrow> refs \<Rightarrow> string \<Rightarrow> variables_arg \<Rightarrow> string" where
  "operationKey hash rs name variables = ''graphql:'' @ name @ '':'' @ hash (unref rs variables)"

text \<open>
  The spec's \<^verbatim>\<open>buildKey(kind, name, variables)\<close> as the code realises it: the
  template of line 67 has the fixed prefix \<^verbatim>\<open>graphql:\<close> and no place for the
  kind.
\<close>

definition buildKey ::
  "(jsvalue \<Rightarrow> string) \<Rightarrow> refs \<Rightarrow> operation_kind \<Rightarrow> string \<Rightarrow> variables_arg \<Rightarrow> string" where
  "buildKey hash rs kind name variables = operationKey hash rs name variables"

text \<open>\<^verbatim>\<open>asyncDataOptions.graphqlCaching?.client\<close> as a condition.\<close>

definition caching_client :: "('d, 'o) asyncGraphqlQueryOptions \<Rightarrow> bool" where
  "caching_client opts =
     (case graphqlCaching opts of
        None \<Rightarrow> False
      | Some c \<Rightarrow> (case client c of None \<Rightarrow> False | Some b \<Rightarrow> b))"

text \<open>Lines 71-78: a reactive \<^verbatim>\<open>variables\<close> is pushed onto \<^verbatim>\<open>watch\<close>.\<close>

definition watch_variables ::
  "variables_arg \<Rightarrow> ('d, 'o) asyncGraphqlQueryOptions \<Rightarrow> ('d, 'o) asyncGraphqlQueryOptions" where
  "watch_variables variables opts =
     (if truthy variables \<and> isRef variables
      then opts\<lparr>watch := Some ((case watch opts of None \<Rightarrow> [] | Some w \<Rightarrow> w) @ [variables])\<rparr>
      else opts)"

text \<open>Lines 80-90: the payload lookup is installed.\<close>

definition install_getCachedData ::
  "bool \<Rightarrow> ('d, 'o) asyncGraphqlQueryOptions \<Rightarrow> ('d, 'o) asyncGraphqlQueryOptions" where
  "install_getCachedData import_meta_client opts =
     (if import_meta_client \<and> caching_client opts \<and> getCachedData opts = None
      then opts\<lparr>getCachedData := Some PayloadLookup\<rparr>
      else opts)"

text \<open>
  \<^verbatim>\<open>useAsyncGraphqlQuery\<close>, lines 63-109. \<open>hash\<close> (package ohash) and
  \<open>buildRequestParams\<close> (a helper of \<^verbatim>\<open>./../helpers\<close>, which is not among
  the sources) are parameters,
  \<open>import_meta_client\<close> is \<^verbatim>\<open>import.meta.client\<close>, \<open>rs\<close> holds the
  Refs' values at the time of the call, and \<open>arg_opts\<close> is the second rest
  argument \<^verbatim>\<open>args[1]\<close> (\<open>None\<close> for \<^verbatim>\<open>undefined\<close> or \<^verbatim>\<open>null\<close>).
\<close>

definition useAsyncGraphqlQuery ::
  "(jsvalue \<Rightarrow> string) \<Rightarrow> (jsvalue \<Rightarrow> 'o) \<Rightarrow> bool \<Rightarrow> refs \<Rightarrow> string \<Rightarrow> variables_arg \<Rightarrow>
   ('d, 'o) asyncGraphqlQueryOptions option \<Rightarrow> ('d, 'o) useAsyncData_call" where
  "useAsyncGraphqlQuery hash buildRequestParams import_meta_client rs name variables arg_opts =
     (let asyncDataOptions = given_options arg_opts;
          fetchOpts = fetchOptions asyncDataOptions;
          key = operationKey hash rs name variables;
          with_watch = watch_variables variables asyncDataOptions;
          with_lookup = install_getCachedData import_meta_client with_watch;
          cacheOptions = graphqlCaching with_lookup
      in \<lparr>call_key = key,
          call_handler = (\<lambda>now.
            \<lparr>req_operation = Query,
             req_operationName = name,
             req_method = GET,
             req_options =
               [''params'' \<mapsto> buildRequestParams (unref now variables)] ++
               (case fetchOpts of None \<Rightarrow> Map.empty | Some f \<Rightarrow> f),
             req_cacheOptions = cacheOptions\<rparr>),
          call_options = with_lookup\<rparr>)"

section \<open>The hash of the variables\<close>

text \<open>
  Structural equality of two values up to the insertion order of object keys: arrays
  are compared position by position, objects entry by entry through their keys.
\<close>

fun struct_eq :: "jsvalue \<Rightarrow> jsvalue \<Rightarrow> bool" where
  "struct_eq (JArr xs) (JArr ys) = list_all2 struct_eq xs ys"
| "struct_eq (JObj kvs) (JObj lws) =
     (set (map fst kvs) = set (map fst lws) \<and>
      list_all (\<lambda>(k, v). case map_of lws k of None \<Rightarrow> False | Some w \<Rightarrow> struct_eq v w) kvs)"
| "struct_eq a b = (a = b)"

text \<open>
  Modelled from the spec: \<^verbatim>\<open>hash\<close> is imported from the package ohash
  (line 15), whose source is not among the sources. Spec 4.1 describes it as a content hash
  over a canonical serialization of the variables that normalises the map ordering
  before hashing. \<open>canonical\<close> is that normalisation: the entries of every object,
  at any depth, ordered by key. \<open>digest\<close>, the content hash of the normalised
  value, is a parameter.
\<close>

fun canonical :: "jsvalue \<Rightarrow> jsvalue" where
  "canonical (JArr xs) = JArr (map canonical xs)"
| "canonical (JObj kvs) = JObj (sort_key fst (map (\<lambda>(k, v). (k, canonical v)) kvs))"
| "canonical v = v"

definition ohash :: "(jsvalue \<Rightarrow> string) \<Rightarrow> jsvalue \<Rightarrow> string" where
  "ohash digest v = digest (canonical v)"

section \<open>The async-data wrapper\<close>

text \<open>
  Modelled from the spec: \<^verbatim>\<open>useAsyncData\<close> is the host framework's (line 14),
  not among the sources. Spec 4.5 gives its state machine per subscription: idle, pending
  (a dispatch is in flight), settled with data or with an error; pending is entered
  again whenever a watched input changes or the consumer asks for a refresh; on the
  first activation only, a configured lookup that has an entry for the key settles
  the subscription at once, without a dispatch; a failed dispatch is not retried.
  A dispatch is one run of the handler; the runs are logged in \<open>sub_dispatched\<close>.
\<close>

datatype ('d, 'e) phase = Idle | Pending | Settled_data 'd | Settled_error 'e

record ('d, 'e, 'o) subscription =
  sub_phase :: "('d, 'e) phase"
  sub_refs :: refs
  sub_dispatched :: "'o performRequest_call list"

datatype ('d, 'e) wrapper_event =
    Activated
  | Input_changed ref_id jsvalue
  | Refresh_requested
  | Dispatch_settled "'e + 'd"

definition initial_subscription :: "refs \<Rightarrow> ('d, 'e, 'o) subscription" where
  "initial_subscription rs = \<lparr>sub_phase = Idle, sub_refs = rs, sub_dispatched = []\<rparr>"

definition dispatch_now ::
  "('d, 'o) useAsyncData_call \<Rightarrow> ('d, 'e, 'o) subscription \<Rightarrow> ('d, 'e, 'o) subscription" where
  "dispatch_now call s =
     s\<lparr>sub_phase := Pending, sub_dispatched := sub_dispatched s @ [call_handler call (sub_refs s)]\<rparr>"

definition cached_payload :: "(string \<rightharpoonup> 'd) \<Rightarrow> ('d, 'o) useAsyncData_call \<Rightarrow> 'd option" where
  "cached_payload payload call =
     (case getCachedData (call_options call) of
        None \<Rightarrow> None
      | Some lookup \<Rightarrow> run_lookup payload lookup (call_key call))"

definition watched :: "('d, 'o) useAsyncData_call \<Rightarrow> watch_source list" where
  "watched call = (case watch (call_options call) of None \<Rightarrow> [] | Some w \<Rightarrow> w)"

fun useAsyncData_step ::
  "(string \<rightharpoonup> 'd) \<Rightarrow> ('d, 'o) useAsyncData_call \<Rightarrow> ('d, 'e) wrapper_event \<Rightarrow>
   ('d, 'e, 'o) subscription \<Rightarrow> ('d, 'e, 'o) subscription" where
  "useAsyncData_step payload call Activated s =
     (if sub_phase s = Idle
      then (case cached_payload payload call of
              Some d \<Rightarrow> s\<lparr>sub_phase := Settled_data d\<rparr>
            | None \<Rightarrow> dispatch_now call s)
      else s)"
| "useAsyncData_step payload call (Input_changed r v) s =
     (if Reactive r \<in> set (watched call)
      then dispatch_now call (s\<lparr>sub_refs := (sub_refs s)(r := v)\<rparr>)
      else s\<lparr>sub_refs := (sub_refs s)(r := v)\<rparr>)"
| "useAsyncData_step payload call Refresh_requested s = dispatch_now call s"
| "useAsyncData_step payload call (Dispatch_settled outcome) s =
     (if sub_phase s = Pending
      then s\<lparr>sub_phase := (case outcome of Inl e \<Rightarrow> Settled_error e | Inr d \<Rightarrow> Settled_data d)\<rparr>
      else s)"

text \<open>
  The Reactive Caching Coordinator: the composable's call of the wrapper, followed
  through a sequence of events from the idle subscription.
\<close>

definition coordinator_run ::
  "(jsvalue \<Rightarrow> string) \<Rightarrow> (jsvalue \<Rightarrow> 'o) \<Rightarrow> bool \<Rightarrow> refs \<Rightarrow> string \<Rightarrow> variables_arg \<Rightarrow>
   ('d, 'o) asyncGraphqlQueryOptions option \<Rightarrow> (string \<rightharpoonup> 'd) \<Rightarrow> ('d, 'e) wrapper_event list \<Rightarrow>
   ('d, 'e, 'o) subscription" where
  "coordinator_run hash buildRequestParams import_meta_client rs name variables arg_opts payload events =
     foldl
       (\<lambda>s ev. useAsyncData_step payload
          (useAsyncGraphqlQuery hash buildRequestParams import_meta_client rs name variables arg_opts) ev s)
       (initial_subscription rs) events"

section \<open>Facts about the composable\<close>

lemma watch_variables_getCachedData [simp]:
  "getCachedData (watch_variables variables opts) = getCachedData opts"
  by (simp add: watch_variables_def)

lemma watch_variables_graphqlCaching [simp]:
  "graphqlCaching (watch_variables variables opts) = graphqlCaching opts"
  by (simp add: watch_variables_def)

lemma caching_client_watch_variables [simp]:
  "caching_client (watch_variables variables opts) = caching_client opts"
  by (simp add: caching_client_def)

lemma install_getCachedData_watch [simp]:
  "watch (install_getCachedData c opts) = watch opts"
  by (simp add: install_getCachedData_def)

lemma install_getCachedData_graphqlCaching [simp]:
  "graphqlCaching (install_getCachedData c opts) = graphqlCaching opts"
  by (simp add: install_getCachedData_def)

lemma call_key_useAsyncGraphqlQuery:
  "call_key (useAsyncGraphqlQuery hash brp c rs name variables arg_opts) =
     operationKey hash rs name variables"
  by (simp add: useAsyncGraphqlQuery_def Let_def)

lemma call_options_useAsyncGraphqlQuery:
  "call_options (useAsyncGraphqlQuery hash brp c rs name variables arg_opts) =
     install_getCachedData c
       (watch_variables variables (given_options arg_opts))"
  by (simp add: useAsyncGraphqlQuery_def Let_def)

lemma call_handler_useAsyncGraphqlQuery:
  "call_handler (useAsyncGraphqlQuery hash brp c rs name variables arg_opts) now =
     \<lparr>req_operation = Query,
      req_operationName = name,
      req_method = GET,
      req_options =
        [''params'' \<mapsto> brp (unref now variables)] ++
        (case fetchOptions (given_options arg_opts) of
           None \<Rightarrow> Map.empty | Some f \<Rightarrow> f),
      req_cacheOptions = graphqlCaching (given_options arg_opts)\<rparr>"
  by (simp add: useAsyncGraphqlQuery_def Let_def)

text \<open>
  C10. The payload lookup is installed exactly when the code runs on the client, client
  caching was requested through \<^verbatim>\<open>graphqlCaching.client\<close> and the caller passed no
  \<^verbatim>\<open>getCachedData\<close>; in every other case the field is what the caller passed,
  so a caller's \<^verbatim>\<open>getCachedData\<close> is never overwritten.
\<close>

theorem getCachedData_installed_iff:
  "(getCachedData (call_options (useAsyncGraphqlQuery hash brp import_meta_client rs name variables arg_opts))
      \<noteq> getCachedData (given_options arg_opts)) =
     (import_meta_client \<and> caching_client (given_options arg_opts) \<and>
      getCachedData (given_options arg_opts) = None) \<and>
   (import_meta_client \<and> caching_client (given_options arg_opts) \<and>
    getCachedData (given_options arg_opts) = None \<longrightarrow>
      getCachedData (call_options (useAsyncGraphqlQuery hash brp import_meta_client rs name variables arg_opts))
        = Some PayloadLookup) \<and>
   (\<forall>g. getCachedData (given_options arg_opts) = Some g \<longrightarrow>
      getCachedData (call_options (useAsyncGraphqlQuery hash brp import_meta_client rs name variables arg_opts))
        = Some g)"
  by (auto simp: call_options_useAsyncGraphqlQuery install_getCachedData_def)

theorem getCachedData_installed_iff_witness:
  "getCachedData (call_options (useAsyncGraphqlQuery (\<lambda>v. ''h'') (\<lambda>v. v) True (\<lambda>r. JNull) ''films''
      (Plain JUndefined)
      (Some \<lparr>watch = None, getCachedData = None,
              graphqlCaching = Some \<lparr>client = Some True\<rparr>, fetchOptions = None\<rparr>)))
     = Some (PayloadLookup :: jsvalue cache_lookup) \<and>
   getCachedData (call_options (useAsyncGraphqlQuery (\<lambda>v. ''h'') (\<lambda>v. v) True (\<lambda>r. JNull) ''films''
      (Plain JUndefined)
      (Some \<lparr>watch = None, getCachedData = Some (CallerLookup (\<lambda>k. Some JNull)),
              graphqlCaching = Some \<lparr>client = Some True\<rparr>, fetchOptions = None\<rparr>)))
     = Some (CallerLookup (\<lambda>k. Some JNull))"
  using
    getCachedData_installed_iff [of "\<lambda>v. ''h''" "\<lambda>v. v" True "\<lambda>r. JNull" "''films''" "Plain JUndefined"
      "Some \<lparr>watch = None, getCachedData = None,
              graphqlCaching = Some \<lparr>client = Some True\<rparr>, fetchOptions = None\<rparr>"]
    getCachedData_installed_iff [of "\<lambda>v. ''h''" "\<lambda>v. v" True "\<lambda>r. JNull" "''films''" "Plain JUndefined"
      "Some \<lparr>watch = None, getCachedData = Some (CallerLookup (\<lambda>k. Some JNull)),
              graphqlCaching = Some \<lparr>client = Some True\<rparr>, fetchOptions = None\<rparr>"]
  by (auto simp: given_options_def caching_client_def)

text \<open>
  C9. The key is built from \<^verbatim>\<open>unref(variables)\<close>: a Ref that holds the value
  \<open>v\<close> and the plain value \<open>v\<close> give the same key, whatever the other arguments.
\<close>

theorem key_of_ref_is_key_of_value:
  "rs r = v \<Longrightarrow>
   call_key (useAsyncGraphqlQuery hash brp c rs name (Reactive r) arg_opts) =
   call_key (useAsyncGraphqlQuery hash brp' c' rs name (Plain v) arg_opts')"
  by (simp add: call_key_useAsyncGraphqlQuery operationKey_def)

theorem key_of_ref_is_key_of_value_witness:
  "(\<lambda>r. JObj [(''id'', JStr ''123'')]) (0::nat) = JObj [(''id'', JStr ''123'')] \<and>
   call_key (useAsyncGraphqlQuery (\<lambda>v. ''h'') (\<lambda>v. v) True (\<lambda>r. JObj [(''id'', JStr ''123'')])
      ''filmById'' (Reactive 0) (None :: (jsvalue, jsvalue) asyncGraphqlQueryOptions option)) =
   call_key (useAsyncGraphqlQuery (\<lambda>v. ''h'') (\<lambda>v. v) False (\<lambda>r. JObj [(''id'', JStr ''123'')])
      ''filmById'' (Plain (JObj [(''id'', JStr ''123'')]))
      (None :: (jsvalue, jsvalue) asyncGraphqlQueryOptions option))"
  using key_of_ref_is_key_of_value [of "\<lambda>r. JObj [(''id'', JStr ''123'')]" 0
      "JObj [(''id'', JStr ''123'')]" "\<lambda>v. ''h''" "\<lambda>v. v" True "''filmById''"
      "None :: (jsvalue, jsvalue) asyncGraphqlQueryOptions option" "\<lambda>v. v" False
      "None :: (jsvalue, jsvalue) asyncGraphqlQueryOptions option"]
  by simp




text \<open>
  C4, as the code has it. With the variables left out and with \<^verbatim>\<open>{}\<close> the
  composable passes the same options on (nothing is watched, the same decision on
  \<^verbatim>\<open>getCachedData\<close>) and the same request whenever \<^verbatim>\<open>buildRequestParams\<close>
  gives both the same params. The key is not normalised by the code: \<^verbatim>\<open>undefined\<close>
  and \<^verbatim>\<open>{}\<close> go to \<^verbatim>\<open>hash\<close> as they are, and the two keys are equal exactly
  when \<^verbatim>\<open>hash\<close> maps both to one digest.
\<close>

theorem absent_and_empty_variables:
  "(call_key (useAsyncGraphqlQuery hash brp c rs name (Plain JUndefined) arg_opts) =
    call_key (useAsyncGraphqlQuery hash brp c rs name (Plain (JObj [])) arg_opts))
     = (hash JUndefined = hash (JObj [])) \<and>
   call_options (useAsyncGraphqlQuery hash brp c rs name (Plain JUndefined) arg_opts) =
   call_options (useAsyncGraphqlQuery hash brp c rs name (Plain (JObj [])) arg_opts) \<and>
   (brp JUndefined = brp (JObj []) \<longrightarrow>
    call_handler (useAsyncGraphqlQuery hash brp c rs name (Plain JUndefined) arg_opts) =
    call_handler (useAsyncGraphqlQuery hash brp c rs name (Plain (JObj [])) arg_opts))"
  by (simp add: call_key_useAsyncGraphqlQuery call_options_useAsyncGraphqlQuery
      call_handler_useAsyncGraphqlQuery operationKey_def watch_variables_def fun_eq_iff)

theorem absent_and_empty_variables_witness:
  "(\<lambda>v. JObj []) JUndefined = (\<lambda>v. JObj []) (JObj []) \<and>
   call_handler (useAsyncGraphqlQuery (\<lambda>v. ''h'') (\<lambda>v. JObj []) True (\<lambda>r. JNull) ''films''
      (Plain JUndefined) (None :: (jsvalue, jsvalue) asyncGraphqlQueryOptions option)) =
   call_handler (useAsyncGraphqlQuery (\<lambda>v. ''h'') (\<lambda>v. JObj []) True (\<lambda>r. JNull) ''films''
      (Plain (JObj [])) (None :: (jsvalue, jsvalue) asyncGraphqlQueryOptions option)) \<and>
   call_key (useAsyncGraphqlQuery (\<lambda>v. ''h'') (\<lambda>v. JObj []) True (\<lambda>r. JNull) ''films''
      (Plain JUndefined) (None :: (jsvalue, jsvalue) asyncGraphqlQueryOptions option)) =
   call_key (useAsyncGraphqlQuery (\<lambda>v. ''h'') (\<lambda>v. JObj []) True (\<lambda>r. JNull) ''films''
      (Plain (JObj [])) (None :: (jsvalue, jsvalue) asyncGraphqlQueryOptions option))"
  using absent_and_empty_variables [of "\<lambda>v. ''h''" "\<lambda>v. JObj []" True "\<lambda>r. JNull" "''films''"
      "None :: (jsvalue, jsvalue) asyncGraphqlQueryOptions option"]
  by auto

text \<open>
  C4 as stated fails on the code alone: nothing in it makes the two keys equal, so
  with a hash that tells \<^verbatim>\<open>undefined\<close> from \<^verbatim>\<open>{}\<close> the keys differ.
\<close>

theorem absent_and_empty_keys_counterexample:
  "\<not> (\<forall>hash rs k n. buildKey hash rs k n (Plain JUndefined) = buildKey hash rs k n (Plain (JObj [])))"
proof
  assume a: "\<forall>hash rs k n. buildKey hash rs k n (Plain JUndefined) = buildKey hash rs k n (Plain (JObj []))"
  have "buildKey (\<lambda>v. if v = JUndefined then ''undefined'' else ''object'') (\<lambda>r. JNull) Query ''films''
          (Plain JUndefined) =
        buildKey (\<lambda>v. if v = JUndefined then ''undefined'' else ''object'') (\<lambda>r. JNull) Query ''films''
          (Plain (JObj []))"
    using a by blast
  then show False
    by (simp add: buildKey_def operationKey_def)
qed

section \<open>Facts about the hash\<close>

lemma filter_key_single:
  "distinct (map fst zs) \<Longrightarrow> p \<in> set zs \<Longrightarrow> filter (\<lambda>x. fst p = fst x) zs = [p]"
proof (induction zs)
  case Nil
  then show ?case by simp
next
  case (Cons z zs)
  show ?case
  proof (cases "p = z")
    case True
    have "filter (\<lambda>x. fst z = fst x) zs = []"
      using Cons.prems(1) by (auto simp: filter_empty_conv)
    with True show ?thesis by simp
  next
    case False
    with Cons.prems have pz: "p \<in> set zs" by simp
    then have "fst p \<in> set (map fst zs)" by simp
    moreover have "fst z \<notin> set (map fst zs)"
      using Cons.prems(1) by simp
    ultimately have "fst p \<noteq> fst z" by metis
    with pz show ?thesis using Cons by simp
  qed
qed

lemma sort_key_fst_unique:
  fixes xs ys :: "('k::linorder \<times> 'v) list"
  assumes dx: "distinct (map fst xs)" and dy: "distinct (map fst ys)" and eq: "set xs = set ys"
  shows "sort_key fst xs = sort_key fst ys"
proof (rule properties_for_sort_key)
  have "distinct xs" "distinct ys"
    using dx dy by (simp_all add: distinct_map)
  then show "mset (sort_key fst ys) = mset xs"
    using eq by (simp add: set_eq_iff_mset_eq_distinct)
next
  fix k assume "k \<in> set (sort_key fst ys)"
  then have ky: "k \<in> set ys" by simp
  with eq have kx: "k \<in> set xs" by simp
  have "filter (\<lambda>x. fst k = fst x) (sort_key fst ys) = filter (\<lambda>x. fst k = fst x) ys"
    using sort_key_stable [of fst "fst k" ys] by (simp add: eq_commute)
  then show "filter (\<lambda>x. fst k = fst x) (sort_key fst ys) = filter (\<lambda>x. fst k = fst x) xs"
    using filter_key_single [OF dx kx] filter_key_single [OF dy ky] by simp
next
  show "sorted (map fst (sort_key fst ys))" by simp
qed

lemma map_fst_entries:
  "map fst (map (\<lambda>(k, v). (k, f v)) kvs) = map fst kvs"
  by (induction kvs) auto

lemma struct_eq_canonical:
  "wellformed a \<Longrightarrow> wellformed b \<Longrightarrow> struct_eq a b \<Longrightarrow> canonical a = canonical b"
proof (induction a arbitrary: b)
  case (JArr xs)
  then obtain ys where b: "b = JArr ys" by (cases b) auto
  with JArr.prems have "list_all2 struct_eq xs ys" "list_all wellformed xs" "list_all wellformed ys"
    by auto
  then have "map canonical xs = map canonical ys"
    using JArr.IH
  proof (induction xs ys rule: list_all2_induct)
    case Nil
    then show ?case by simp
  next
    case (Cons x xs y ys)
    then show ?case by simp
  qed
  with b show ?case by simp
next
  case (JObj kvs)
  then obtain lws where b: "b = JObj lws" by (cases b) auto
  let ?c = "\<lambda>(k, v). (k, canonical v)"
  from JObj.prems b have dk: "distinct (map fst kvs)" and dl: "distinct (map fst lws)"
    and wk: "list_all (\<lambda>(k, v). wellformed v) kvs" and wl: "list_all (\<lambda>(k, v). wellformed v) lws"
    and keys: "set (map fst kvs) = set (map fst lws)"
    and vals: "list_all (\<lambda>(k, v). case map_of lws k of None \<Rightarrow> False | Some w \<Rightarrow> struct_eq v w) kvs"
    by auto
  have step: "(k, canonical v) = (k, canonical w)"
    if "(k, v) \<in> set kvs" "(k, w) \<in> set lws" for k v w
  proof -
    from that(2) dl have "map_of lws k = Some w" by simp
    with vals that(1) have "struct_eq v w" by (auto simp: list_all_iff)
    moreover have "wellformed v" "wellformed w"
      using wk wl that by (auto simp: list_all_iff)
    ultimately show ?thesis using JObj.IH [of "(k, v)" v w] that(1) by simp
  qed
  have "set (map ?c kvs) = set (map ?c lws)"
  proof (intro set_eqI iffI)
    fix p assume "p \<in> set (map ?c kvs)"
    then obtain k v where kv: "(k, v) \<in> set kvs" and p: "p = (k, canonical v)" by auto
    from kv keys have "k \<in> set (map fst lws)" by force
    then obtain w where kw: "(k, w) \<in> set lws" by auto
    then have "(k, canonical w) \<in> set (map ?c lws)" by force
    with step [OF kv kw] p show "p \<in> set (map ?c lws)" by simp
  next
    fix p assume "p \<in> set (map ?c lws)"
    then obtain k w where kw: "(k, w) \<in> set lws" and p: "p = (k, canonical w)" by auto
    from kw keys have "k \<in> set (map fst kvs)" by force
    then obtain v where kv: "(k, v) \<in> set kvs" by auto
    then have "(k, canonical v) \<in> set (map ?c kvs)" by force
    with step [OF kv kw] p show "p \<in> set (map ?c kvs)" by simp
  qed
  moreover have "distinct (map fst (map ?c kvs))" "distinct (map fst (map ?c lws))"
    using dk dl by (simp_all only: map_fst_entries)
  ultimately have "sort_key fst (map ?c kvs) = sort_key fst (map ?c lws)"
    by (intro sort_key_fst_unique)
  with b show ?case by simp
qed auto

text \<open>
  C2. With the hash normalising the order of object keys, two variable maps that are
  structurally equal and differ only in the insertion order of their keys (at any
  depth) get the same key, for every kind and name.
\<close>

theorem key_insensitive_to_insertion_order:
  "wellformed (unref rs v1) \<Longrightarrow> wellformed (unref rs v2) \<Longrightarrow>
   struct_eq (unref rs v1) (unref rs v2) \<Longrightarrow>
   buildKey (ohash digest) rs k n v1 = buildKey (ohash digest) rs k n v2"
  by (simp add: buildKey_def operationKey_def ohash_def struct_eq_canonical)

theorem key_insensitive_to_insertion_order_witness:
  "wellformed (unref (\<lambda>r. JNull) (Plain (JObj [(''a'', JNum 1), (''b'', JObj [(''x'', JNull), (''y'', JNull)])]))) \<and>
   wellformed (unref (\<lambda>r. JNull) (Plain (JObj [(''b'', JObj [(''y'', JNull), (''x'', JNull)]), (''a'', JNum 1)]))) \<and>
   struct_eq (unref (\<lambda>r. JNull) (Plain (JObj [(''a'', JNum 1), (''b'', JObj [(''x'', JNull), (''y'', JNull)])])))
     (unref (\<lambda>r. JNull) (Plain (JObj [(''b'', JObj [(''y'', JNull), (''x'', JNull)]), (''a'', JNum 1)]))) \<and>
   buildKey (ohash (\<lambda>v. ''h'')) (\<lambda>r. JNull) Query ''films''
     (Plain (JObj [(''a'', JNum 1), (''b'', JObj [(''x'', JNull), (''y'', JNull)])])) =
   buildKey (ohash (\<lambda>v. ''h'')) (\<lambda>r. JNull) Query ''films''
     (Plain (JObj [(''b'', JObj [(''y'', JNull), (''x'', JNull)]), (''a'', JNum 1)]))"
proof -
  have w1: "wellformed (unref (\<lambda>r. JNull)
      (Plain (JObj [(''a'', JNum 1), (''b'', JObj [(''x'', JNull), (''y'', JNull)])])))"
    by simp
  have w2: "wellformed (unref (\<lambda>r. JNull)
      (Plain (JObj [(''b'', JObj [(''y'', JNull), (''x'', JNull)]), (''a'', JNum 1)])))"
    by simp
  have e: "struct_eq
      (unref (\<lambda>r. JNull) (Plain (JObj [(''a'', JNum 1), (''b'', JObj [(''x'', JNull), (''y'', JNull)])])))
      (unref (\<lambda>r. JNull) (Plain (JObj [(''b'', JObj [(''y'', JNull), (''x'', JNull)]), (''a'', JNum 1)])))"
    by (simp add: insert_commute)
  show ?thesis
    using w1 w2 e key_insensitive_to_insertion_order [OF w1 w2 e, of "\<lambda>v. ''h''" Query "''films''"]
    by blast
qed

section \<open>Facts about the coordinator\<close>

lemma handler_is_query_get:
  "req_operation (call_handler (useAsyncGraphqlQuery hash brp c rs name vars arg_opts) now) = Query \<and>
   req_method (call_handler (useAsyncGraphqlQuery hash brp c rs name vars arg_opts) now) = GET \<and>
   req_operationName (call_handler (useAsyncGraphqlQuery hash brp c rs name vars arg_opts) now) = name"
  by (simp add: call_handler_useAsyncGraphqlQuery)

lemma watch_of_reactive:
  "watch (call_options (useAsyncGraphqlQuery hash brp c rs name (Reactive r) arg_opts)) =
     Some ((case watch (given_options arg_opts) of None \<Rightarrow> [] | Some w \<Rightarrow> w) @ [Reactive r])"
  by (simp add: call_options_useAsyncGraphqlQuery watch_variables_def)

lemma watch_of_plain:
  "watch (call_options (useAsyncGraphqlQuery hash brp c rs name (Plain v) arg_opts)) =
     watch (given_options arg_opts)"
  by (simp add: call_options_useAsyncGraphqlQuery watch_variables_def)

lemma cached_payload_installed:
  "caching_client (given_options arg_opts) \<Longrightarrow> getCachedData (given_options arg_opts) = None \<Longrightarrow>
   cached_payload payload (useAsyncGraphqlQuery hash brp True rs name vars arg_opts) =
     payload (operationKey hash rs name vars)"
  by (simp add: cached_payload_def call_options_useAsyncGraphqlQuery call_key_useAsyncGraphqlQuery
      install_getCachedData_def)

lemma activation_without_lookup_dispatches:
  "getCachedData (call_options call) = None \<Longrightarrow>
   sub_dispatched (useAsyncData_step payload call Activated (initial_subscription rs)) =
     [call_handler call rs]"
  by (simp add: initial_subscription_def cached_payload_def dispatch_now_def)

lemma server_side_never_installs:
  "getCachedData (given_options arg_opts) = None \<Longrightarrow>
   getCachedData (call_options (useAsyncGraphqlQuery hash brp False rs name vars arg_opts)) = None"
  by (simp add: call_options_useAsyncGraphqlQuery install_getCachedData_def)

text \<open>
  C5. On the client, with client caching requested, no \<^verbatim>\<open>getCachedData\<close> of the
  caller's and a payload stored under the current key, the first activation settles
  to that payload and dispatches nothing; when the reactive variables then change,
  exactly one dispatch is made, with the new value (whether or not the new value
  hashes to another key).
\<close>

theorem cached_activation_then_one_dispatch:
  "caching_client (given_options arg_opts) \<Longrightarrow> getCachedData (given_options arg_opts) = None \<Longrightarrow>
   payload (buildKey hash rs Query name vars) = Some d \<Longrightarrow>
   sub_phase (coordinator_run hash brp True rs name vars arg_opts payload [Activated]) =
     (Settled_data d :: ('d, 'e) phase) \<and>
   sub_dispatched (coordinator_run hash brp True rs name vars arg_opts payload [Activated]) = [] \<and>
   (\<forall>r v. vars = Reactive r \<longrightarrow>
      sub_dispatched
        (coordinator_run hash brp True rs name vars arg_opts payload [Activated, Input_changed r v]) =
        [call_handler (useAsyncGraphqlQuery hash brp True rs name vars arg_opts) (rs(r := v))] \<and>
      sub_phase
        (coordinator_run hash brp True rs name vars arg_opts payload [Activated, Input_changed r v]) =
        Pending)"
  by (auto simp: coordinator_run_def initial_subscription_def cached_payload_installed
      buildKey_def watched_def watch_of_reactive dispatch_now_def)

theorem cached_activation_then_one_dispatch_witness:
  "caching_client
     (given_options (Some \<lparr>watch = None, getCachedData = (None :: jsvalue cache_lookup option),
        graphqlCaching = Some \<lparr>client = Some True\<rparr>,
        fetchOptions = (None :: (string \<rightharpoonup> jsvalue) option)\<rparr>)) \<and>
   sub_phase (coordinator_run (\<lambda>v. ''h'') (\<lambda>v. v) True (\<lambda>r. JStr ''1'') ''filmById'' (Reactive 0)
      (Some \<lparr>watch = None, getCachedData = None,
        graphqlCaching = Some \<lparr>client = Some True\<rparr>, fetchOptions = None\<rparr>)
      [''graphql:filmById:h'' \<mapsto> JStr ''A New Hope'']
      ([Activated] :: (jsvalue, string) wrapper_event list)) = Settled_data (JStr ''A New Hope'') \<and>
   length (sub_dispatched (coordinator_run (\<lambda>v. ''h'') (\<lambda>v. v) True (\<lambda>r. JStr ''1'') ''filmById''
      (Reactive 0)
      (Some \<lparr>watch = None, getCachedData = None,
        graphqlCaching = Some \<lparr>client = Some True\<rparr>, fetchOptions = None\<rparr>)
      [''graphql:filmById:h'' \<mapsto> JStr ''A New Hope'']
      ([Activated, Input_changed 0 (JStr ''2'')] :: (jsvalue, string) wrapper_event list))) = 1"
proof -
  let ?opts = "Some \<lparr>watch = None, getCachedData = (None :: jsvalue cache_lookup option),
        graphqlCaching = Some \<lparr>client = Some True\<rparr>,
        fetchOptions = (None :: (string \<rightharpoonup> jsvalue) option)\<rparr>"
  let ?payload = "[''graphql:filmById:h'' \<mapsto> JStr ''A New Hope'']"
  have c: "caching_client (given_options ?opts)"
    by (simp add: given_options_def caching_client_def)
  have g: "getCachedData (given_options ?opts) = None"
    by (simp add: given_options_def)
  have p: "?payload (buildKey (\<lambda>v. ''h'') (\<lambda>r. JStr ''1'') Query ''filmById'' (Reactive 0)) =
      Some (JStr ''A New Hope'')"
    by (simp add: buildKey_def operationKey_def)
  note t = cached_activation_then_one_dispatch [where 'e = string and arg_opts = ?opts
      and payload = ?payload and hash = "\<lambda>v. ''h''" and rs = "\<lambda>r. JStr ''1''"
      and name = "''filmById''" and vars = "Reactive 0" and d = "JStr ''A New Hope''"
      and brp = "\<lambda>v. v", OF c g p]
  from t have "sub_dispatched (coordinator_run (\<lambda>v. ''h'') (\<lambda>v. v) True (\<lambda>r. JStr ''1'') ''filmById''
      (Reactive 0) ?opts ?payload
      ([Activated, Input_changed 0 (JStr ''2'')] :: (jsvalue, string) wrapper_event list)) =
      [call_handler (useAsyncGraphqlQuery (\<lambda>v. ''h'') (\<lambda>v. v) True (\<lambda>r. JStr ''1'') ''filmById''
         (Reactive 0) ?opts) ((\<lambda>r. JStr ''1'')(0 := JStr ''2''))]"
    by blast
  then have "length (sub_dispatched (coordinator_run (\<lambda>v. ''h'') (\<lambda>v. v) True (\<lambda>r. JStr ''1'')
      ''filmById'' (Reactive 0) ?opts ?payload
      ([Activated, Input_changed 0 (JStr ''2'')] :: (jsvalue, string) wrapper_event list))) = 1"
    by simp
  with c t show ?thesis by blast
qed

text \<open>
  C6. A reactive \<^verbatim>\<open>variables\<close> is appended to the watched sources passed to the
  wrapper; whenever it changes, the dispatch runs again, and the handler reads the
  value the Ref holds at that moment.
\<close>

theorem reactive_variables_are_watched:
  "vars = Reactive r \<Longrightarrow>
   watch (call_options (useAsyncGraphqlQuery hash brp c rs name vars arg_opts)) =
     Some ((case watch (given_options arg_opts) of None \<Rightarrow> [] | Some w \<Rightarrow> w) @ [vars]) \<and>
   sub_dispatched
     (useAsyncData_step payload (useAsyncGraphqlQuery hash brp c rs name vars arg_opts) (Input_changed r v) s) =
     sub_dispatched s @
       [call_handler (useAsyncGraphqlQuery hash brp c rs name vars arg_opts) ((sub_refs s)(r := v))] \<and>
   sub_phase
     (useAsyncData_step payload (useAsyncGraphqlQuery hash brp c rs name vars arg_opts) (Input_changed r v) s) =
     Pending \<and>
   req_options (call_handler (useAsyncGraphqlQuery hash brp c rs name vars arg_opts) now) =
     [''params'' \<mapsto> brp (now r)] ++
     (case fetchOptions (given_options arg_opts) of None \<Rightarrow> Map.empty | Some f \<Rightarrow> f)"
  by (simp add: watched_def watch_of_reactive dispatch_now_def call_handler_useAsyncGraphqlQuery)

theorem reactive_variables_are_watched_witness:
  "Reactive 0 = Reactive 0 \<and>
   watch (call_options (useAsyncGraphqlQuery (\<lambda>v. ''h'') (\<lambda>v. v) False (\<lambda>r. JStr ''1'') ''userById''
      (Reactive 0)
      (Some \<lparr>watch = Some [Reactive 7], getCachedData = (None :: jsvalue cache_lookup option),
        graphqlCaching = None, fetchOptions = None\<rparr>))) = Some [Reactive 7, Reactive 0] \<and>
   map (\<lambda>q. req_options q ''params'')
     (sub_dispatched (useAsyncData_step Map.empty
        (useAsyncGraphqlQuery (\<lambda>v. ''h'') (\<lambda>v. v) False (\<lambda>r. JStr ''1'') ''userById'' (Reactive 0)
          (Some \<lparr>watch = Some [Reactive 7], getCachedData = (None :: jsvalue cache_lookup option),
            graphqlCaching = None, fetchOptions = None\<rparr>))
        (Input_changed 0 (JStr ''2''))
        (initial_subscription (\<lambda>r. JStr ''1'') :: (jsvalue, string, jsvalue) subscription))) =
     [Some (JStr ''2'')]"
  using reactive_variables_are_watched [of "Reactive 0" 0 "\<lambda>v. ''h''" "\<lambda>v. v" False
      "\<lambda>r. JStr ''1''" "''userById''"
      "Some \<lparr>watch = Some [Reactive 7], getCachedData = (None :: jsvalue cache_lookup option),
        graphqlCaching = None, fetchOptions = None\<rparr>"
      Map.empty "JStr ''2''"
      "initial_subscription (\<lambda>r. JStr ''1'') :: (jsvalue, string, jsvalue) subscription"
      "(\<lambda>r. JStr ''1'')(0 := JStr ''2'')"]
  by (simp add: given_options_def initial_subscription_def call_handler_useAsyncGraphqlQuery)

end
